theory Spec2Isabelle
  imports Complex_Main "HOL-Library.AList"
begin

section \<open>The Ergast client of FastF1 (\<^verbatim>\<open>fastf1/ergast.py\<close>)\<close>

subsection \<open>Strings and formatted values\<close>

text \<open>
  Python's \<^verbatim>\<open>str(n)\<close> for an integer, which is what an f-string field
  \<^verbatim>\<open>{n}\<close> inserts: the decimal digits, with a leading minus sign for a
  negative number.
\<close>

definition digit_char :: "nat \<Rightarrow> char" where
  "digit_char d = char_of (48 + d)"

function str_of_nat :: "nat \<Rightarrow> string" where
  "str_of_nat n =
     (if n < 10 then [digit_char n]
      else str_of_nat (n div 10) @ [digit_char (n mod 10)])"
  by pat_completeness auto
termination
  by (relation "measure (\<lambda>n. n)") auto

definition str_of_int :: "int \<Rightarrow> string" where
  "str_of_int i =
     (if i < 0 then CHR ''-'' # str_of_nat (nat (- i)) else str_of_nat (nat i))"

text \<open>
  A filter argument of \<^verbatim>\<open>select\<close> and the \<^verbatim>\<open>year\<close> and \<^verbatim>\<open>gp\<close>
  arguments of the fetch functions are an integer or a string
  (\<^verbatim>\<open>Union[Literal['current'], int]\<close>, \<^verbatim>\<open>str\<close>); \<^verbatim>\<open>format_arg\<close> is
  the text an f-string field inserts for it.
\<close>

datatype pyarg = ArgInt int | ArgStr string

fun format_arg :: "pyarg \<Rightarrow> string" where
  "format_arg (ArgInt n) = str_of_int n"
| "format_arg (ArgStr s) = s"

subsection \<open>The selector builder: \<^verbatim>\<open>Ergast.select\<close>\<close>

text \<open>
  \<^verbatim>\<open>ErgastSelectionObject\<close> holds the selector it was built with. An argument
  left out is Python's \<^verbatim>\<open>None\<close>, here \<open>None\<close>.
\<close>

record ErgastSelectionObject =
  selector :: string

definition select ::
  "pyarg option \<Rightarrow> pyarg option \<Rightarrow> pyarg option \<Rightarrow> pyarg option \<Rightarrow> pyarg option
     \<Rightarrow> ErgastSelectionObject" where
  "select season round' circuit constructor driver =
     (let selector = '''';
          selector = (case season of None \<Rightarrow> selector
                      | Some v \<Rightarrow> selector @ ''/'' @ format_arg v);
          selector = (case round' of None \<Rightarrow> selector
                      | Some v \<Rightarrow> selector @ ''/'' @ format_arg v);
          selector = (case circuit of None \<Rightarrow> selector
                      | Some v \<Rightarrow> selector @ ''/circuits/'' @ format_arg v);
          selector = (case constructor of None \<Rightarrow> selector
                      | Some v \<Rightarrow> selector @ ''/constructors/'' @ format_arg v);
          selector = (case driver of None \<Rightarrow> selector
                      | Some v \<Rightarrow> selector @ ''/drivers/'' @ format_arg v)
      in \<lparr> selector = selector \<rparr>)"

text \<open>
  The selector as the specification words it: one path segment for each filter that is
  present, the five filters taken in the order season, round, circuit, constructor,
  driver.
\<close>

fun segment :: "string \<times> pyarg option \<Rightarrow> string list" where
  "segment (prefix, None) = []"
| "segment (prefix, Some v) = [prefix @ format_arg v]"

definition selector_segments ::
  "pyarg option \<Rightarrow> pyarg option \<Rightarrow> pyarg option \<Rightarrow> pyarg option \<Rightarrow> pyarg option
     \<Rightarrow> string list" where
  "selector_segments season round' circuit constructor driver =
     concat (map segment
       [(''/'', season), (''/'', round'), (''/circuits/'', circuit),
        (''/constructors/'', constructor), (''/drivers/'', driver)])"

subsection \<open>Python values and exceptions\<close>

text \<open>
  The exceptions the module can raise: Python's own, and the two classes the module
  declares under \<^verbatim>\<open>ErgastException\<close>, each with its message.
\<close>

datatype error =
    AttributeError | TypeError | ValueError | OverflowError | KeyError | IndexError
  | UnboundLocalError | UnicodeDecodeError | JSONDecodeError
  | ErgastJsonException string | ErgastInvalidRequest string

text \<open>\<^verbatim>\<open>isinstance(e, ErgastException)\<close>: the module's own exception hierarchy.\<close>

fun is_ErgastException :: "error \<Rightarrow> bool" where
  "is_ErgastException (ErgastJsonException msg) = True"
| "is_ErgastException (ErgastInvalidRequest msg) = True"
| "is_ErgastException e = False"

text \<open>
  The values the module handles: what \<^verbatim>\<open>json.loads\<close> returns (\<^verbatim>\<open>None\<close>,
  booleans, integers, floats, strings, lists, and dictionaries with string keys, kept in
  insertion order) and the \<^verbatim>\<open>_ErgastResponseItem\<close> wrapper, which holds a
  reference to an original record: \<open>VItem a\<close> wraps the object at address \<open>a\<close>. The type
  \<open>'f\<close> is Python's float type, which the module never inspects.
\<close>

type_synonym addr = nat

datatype 'f pyval =
    VNone | VBool bool | VInt int | VFloat 'f | VStr string
  | VList "'f pyval list" | VDict "(string \<times> 'f pyval) list" | VItem addr

type_synonym 'f pydict = "(string \<times> 'f pyval) list"

text \<open>
  Subscription \<^verbatim>\<open>v[k]\<close> with a string key and \<^verbatim>\<open>v[i]\<close> with a
  non-negative integer index. A dictionary here has string keys only, so an integer
  subscript of a dictionary is a missing key.
\<close>

fun getitem_str :: "'f pyval \<Rightarrow> string \<Rightarrow> error + 'f pyval" where
  "getitem_str (VDict d) k = (case map_of d k of None \<Rightarrow> Inl KeyError | Some v \<Rightarrow> Inr v)"
| "getitem_str v k = Inl TypeError"

fun getitem_nat :: "'f pyval \<Rightarrow> nat \<Rightarrow> error + 'f pyval" where
  "getitem_nat (VList xs) i = (if i < length xs then Inr (xs ! i) else Inl IndexError)"
| "getitem_nat (VStr s) i = (if i < length s then Inr (VStr [s ! i]) else Inl IndexError)"
| "getitem_nat (VDict d) i = Inl KeyError"
| "getitem_nat v i = Inl TypeError"

text \<open>Sequencing of a computation that may raise: the first exception ends it.\<close>

definition bind_err :: "error + 'a \<Rightarrow> ('a \<Rightarrow> error + 'b) \<Rightarrow> error + 'b" where
  "bind_err r f = (case r of Inl e \<Rightarrow> Inl e | Inr x \<Rightarrow> f x)"

text \<open>A chain of string subscripts, \<^verbatim>\<open>v[k1][k2]...\<close>, from left to right.\<close>

fun getitem_path :: "'f pyval \<Rightarrow> string list \<Rightarrow> error + 'f pyval" where
  "getitem_path v [] = Inr v"
| "getitem_path v (k # ks) = bind_err (getitem_str v k) (\<lambda>v1. getitem_path v1 ks)"

subsection \<open>The HTTP collaborator and the JSON library\<close>

text \<open>
  \<^verbatim>\<open>Cache.requests_get\<close> is outside this module. It is taken as a parameter
  \<open>server\<close>, the response to a GET of a URL. The state \<open>world\<close> records what the module
  does to its surroundings: the URLs requested, in order, and the warnings emitted
  through \<^verbatim>\<open>warnings.warn\<close>.
\<close>

record response =
  status_code :: int
  content :: string

record world =
  requests :: "string list"
  warnings :: "string list"

definition requests_get :: "(string \<Rightarrow> response) \<Rightarrow> string \<Rightarrow> world \<Rightarrow> response \<times> world" where
  "requests_get server url w = (server url, w\<lparr>requests := requests w @ [url]\<rparr>)"

definition warn :: "string \<Rightarrow> world \<Rightarrow> world" where
  "warn msg w = w\<lparr>warnings := warnings w @ [msg]\<rparr>"

text \<open>
  \<^verbatim>\<open>bytes.decode('utf-8')\<close> and \<^verbatim>\<open>json.loads\<close> belong to Python's library and
  are parameters too; \<open>None\<close> is the exception each raises on bad input.
  \<^verbatim>\<open>loads_content\<close> is the expression
  \<^verbatim>\<open>json.loads(r.content.decode('utf-8'))\<close>.
\<close>

record 'f json_lib =
  decode_utf8 :: "string \<Rightarrow> string option"
  json_loads :: "string \<Rightarrow> 'f pyval option"

definition loads_content :: "'f json_lib \<Rightarrow> response \<Rightarrow> error + 'f pyval" where
  "loads_content L r =
     (case decode_utf8 L (content r) of
        None \<Rightarrow> Inl UnicodeDecodeError
      | Some text \<Rightarrow>
          (case json_loads L text of None \<Rightarrow> Inl JSONDecodeError | Some v \<Rightarrow> Inr v))"

definition base_url :: string where
  "base_url = ''https://ergast.com/api/f1''"

subsection \<open>\<^verbatim>\<open>ErgastSelectionObject._get\<close>\<close>

text \<open>
  One request; on status 200 the decoded content, with every exception of the decoding
  replaced by \<^verbatim>\<open>ErgastJsonException\<close>; on any other status
  \<^verbatim>\<open>ErgastInvalidRequest\<close>. (The name \<^verbatim>\<open>_get\<close> is not an Isabelle
  identifier.)
\<close>

definition selection_get ::
  "'f json_lib \<Rightarrow> (string \<Rightarrow> response) \<Rightarrow> string \<Rightarrow> world \<Rightarrow> (error + 'f pyval) \<times> world" where
  "selection_get L server url w =
     (let (r, w1) = requests_get server url w in
      if status_code r = 200 then
        (case loads_content L r of
           Inr v \<Rightarrow> (Inr v, w1)
         | Inl exc \<Rightarrow>
             (Inl (ErgastJsonException (''Failed to parse Ergast response ('' @ url @ '')'')), w1))
      else (Inl (ErgastInvalidRequest (''Invalid request to Ergast ('' @ url @ '')'')), w1))"

subsection \<open>The root-level fetch functions\<close>

text \<open>
  \<^verbatim>\<open>_parse_json_response\<close>: on status 200 the decoded content, an exception of the
  decoding left to propagate; otherwise a warning and \<^verbatim>\<open>None\<close>.
\<close>

definition parse_json_response ::
  "'f json_lib \<Rightarrow> response \<Rightarrow> world \<Rightarrow> (error + 'f pyval) \<times> world" where
  "parse_json_response L r w =
     (if status_code r = 200 then (loads_content L r, w)
      else (Inr VNone, warn (''Request returned: '' @ str_of_int (status_code r)) w))"

text \<open>\<^verbatim>\<open>_parse_ergast\<close>: \<^verbatim>\<open>data['MRData']['RaceTable']['Races']\<close>.\<close>

definition parse_ergast :: "'f pyval \<Rightarrow> error + 'f pyval" where
  "parse_ergast data = getitem_path data [''MRData'', ''RaceTable'', ''Races'']"

definition fetch_season ::
  "'f json_lib \<Rightarrow> (string \<Rightarrow> response) \<Rightarrow> pyarg \<Rightarrow> world \<Rightarrow> (error + 'f pyval) \<times> world" where
  "fetch_season L server year w =
     (let url = base_url @ ''/'' @ format_arg year @ ''.json'';
          (r, w1) = requests_get server url w;
          (parsed, w2) = parse_json_response L r w1
      in (bind_err parsed parse_ergast, w2))"

definition fetch_day ::
  "'f json_lib \<Rightarrow> (string \<Rightarrow> response) \<Rightarrow> pyarg \<Rightarrow> pyarg \<Rightarrow> string \<Rightarrow> world
     \<Rightarrow> (error + 'f pyval) \<times> world" where
  "fetch_day L server year gp day w =
     (let url = base_url @ ''/'' @ format_arg year @ ''/'' @ format_arg gp @ ''/'' @ day @ ''.json'';
          (r, w1) = requests_get server url w
      in parse_json_response L r w1)"

text \<open>
  \<^verbatim>\<open>fetch_results\<close>. The \<^verbatim>\<open>if\<close>/\<^verbatim>\<open>elif\<close> chain assigns the locals
  \<^verbatim>\<open>day\<close> and \<^verbatim>\<open>sel\<close> and has no \<^verbatim>\<open>else\<close>: \<open>session_locals\<close> is
  their value after the chain, \<open>None\<close> when no branch ran and both are unbound. The
  \<^verbatim>\<open>return\<close> statement then evaluates \<^verbatim>\<open>fetch_day(year, gp, day)\<close> first, and
  reading the unbound \<^verbatim>\<open>day\<close> raises \<^verbatim>\<open>UnboundLocalError\<close> before anything
  is requested. \<open>first_race_entry data sel\<close> is the expression
  \<^verbatim>\<open>_parse_ergast(data)[0][sel]\<close>.
\<close>

definition session_locals :: "string \<Rightarrow> (string \<times> string) option" where
  "session_locals session =
     (if session = ''Race'' then Some (''results'', ''Results'')
      else if session = ''Qualifying'' then Some (''qualifying'', ''QualifyingResults'')
      else if session \<in> set [''Sprint Qualifying'', ''Sprint'']
        then Some (''sprint'', ''SprintResults'')
      else None)"

definition first_race_entry :: "'f pyval \<Rightarrow> string \<Rightarrow> error + 'f pyval" where
  "first_race_entry data sel =
     bind_err (parse_ergast data) (\<lambda>races.
     bind_err (getitem_nat races 0) (\<lambda>race.
     getitem_str race sel))"

definition fetch_results ::
  "'f json_lib \<Rightarrow> (string \<Rightarrow> response) \<Rightarrow> pyarg \<Rightarrow> pyarg \<Rightarrow> string \<Rightarrow> world
     \<Rightarrow> (error + 'f pyval) \<times> world" where
  "fetch_results L server year gp session w =
     (case session_locals session of
        None \<Rightarrow> (Inl UnboundLocalError, w)
      | Some (day, sel) \<Rightarrow>
          (let (fetched, w1) = fetch_day L server year gp day w
           in (bind_err fetched (\<lambda>data. first_race_entry data sel), w1)))"

subsection \<open>Python's \<^verbatim>\<open>float\<close>, truth values and \<^verbatim>\<open>dict.get\<close>\<close>

text \<open>
  Floats belong to Python, not to this module: the conversions \<^verbatim>\<open>float(n)\<close> of an
  integer (\<open>None\<close>: \<^verbatim>\<open>OverflowError\<close>) and \<^verbatim>\<open>float(s)\<close> of a string
  (\<open>None\<close>: \<^verbatim>\<open>ValueError\<close>) and the truth value of a float are parameters.
  What \<^verbatim>\<open>float\<close> does with the type of its argument is fixed: a float is
  returned as it is, a boolean counts as the integer 0 or 1, and anything that is not a
  number or a string raises \<^verbatim>\<open>TypeError\<close>.
\<close>

record 'f float_builtin =
  float_of_int :: "int \<Rightarrow> 'f option"
  float_of_str :: "string \<Rightarrow> 'f option"
  float_nonzero :: "'f \<Rightarrow> bool"

fun py_float :: "'f float_builtin \<Rightarrow> 'f pyval \<Rightarrow> error + 'f pyval" where
  "py_float F (VFloat x) = Inr (VFloat x)"
| "py_float F (VInt n) =
     (case float_of_int F n of None \<Rightarrow> Inl OverflowError | Some x \<Rightarrow> Inr (VFloat x))"
| "py_float F (VBool b) =
     (case float_of_int F (if b then 1 else 0) of
        None \<Rightarrow> Inl OverflowError | Some x \<Rightarrow> Inr (VFloat x))"
| "py_float F (VStr s) =
     (case float_of_str F s of None \<Rightarrow> Inl ValueError | Some x \<Rightarrow> Inr (VFloat x))"
| "py_float F v = Inl TypeError"

text \<open>The truth value that \<^verbatim>\<open>if x := ...:\<close> tests.\<close>

fun truthy :: "'f float_builtin \<Rightarrow> 'f pyval \<Rightarrow> bool" where
  "truthy F VNone = False"
| "truthy F (VBool b) = b"
| "truthy F (VInt n) = (n \<noteq> 0)"
| "truthy F (VFloat x) = float_nonzero F x"
| "truthy F (VStr s) = (s \<noteq> [])"
| "truthy F (VList xs) = (xs \<noteq> [])"
| "truthy F (VDict d) = (d \<noteq> [])"
| "truthy F (VItem a) = True"

text \<open>\<^verbatim>\<open>v.get(k, default)\<close>: only a dictionary has the method.\<close>

fun py_get :: "'f pyval \<Rightarrow> string \<Rightarrow> 'f pyval \<Rightarrow> error + 'f pyval" where
  "py_get (VDict d) k dflt = Inr (case map_of d k of None \<Rightarrow> dflt | Some v \<Rightarrow> v)"
| "py_get v k dflt = Inl AttributeError"

text \<open>
  \<^verbatim>\<open>for e in v\<close>: the elements of a list, the keys of a dictionary, the characters
  of a string; other values are not iterable.
\<close>

fun py_iter :: "'f pyval \<Rightarrow> error + 'f pyval list" where
  "py_iter (VList xs) = Inr xs"
| "py_iter (VDict d) = Inr (map (\<lambda>kv. VStr (fst kv)) d)"
| "py_iter (VStr s) = Inr (map (\<lambda>c. VStr [c]) s)"
| "py_iter v = Inl TypeError"

subsection \<open>The object store\<close>

text \<open>
  The records of a response are objects: the normaliser copies them, changes the copies
  in place and keeps references to the originals. The store is the list of the objects
  that exist, an object's address its index, and a response is the list of the addresses
  of its records. What lies inside a record is held by value, the module never writing
  to it. A function that works on the store returns its result or exception together
  with the store it leaves behind.
\<close>

type_synonym 'f store = "'f pyval list"

definition then_do ::
  "(error + 'a) \<times> 's \<Rightarrow> ('a \<Rightarrow> 's \<Rightarrow> (error + 'b) \<times> 's) \<Rightarrow> (error + 'b) \<times> 's" where
  "then_do r f = (case r of (Inl e, s) \<Rightarrow> (Inl e, s) | (Inr x, s) \<Rightarrow> f x s)"

text \<open>
  Insertion of key/value pairs into a dictionary held by value, as \<^verbatim>\<open>dict.update\<close>
  does it: a key already there keeps its place, a new key goes to the end.
\<close>

definition dict_update :: "'f pydict \<Rightarrow> 'f pydict \<Rightarrow> 'f pydict" where
  "dict_update d kvs = foldl (\<lambda>d kv. AList.update (fst kv) (snd kv) d) d kvs"

text \<open>
  The three methods the normaliser calls on the object at address \<open>a\<close>:
  \<^verbatim>\<open>.pop(key, None)\<close>, \<^verbatim>\<open>.update({...})\<close> and \<^verbatim>\<open>[key] = v\<close>. A list
  has a \<^verbatim>\<open>pop\<close> of one argument; nothing but a dictionary has \<^verbatim>\<open>update\<close> or
  takes a string subscript.
\<close>

definition obj_pop :: "addr \<Rightarrow> string \<Rightarrow> 'f store \<Rightarrow> (error + 'f pyval) \<times> 'f store" where
  "obj_pop a key st =
     (case st ! a of
        VDict d \<Rightarrow>
          (case map_of d key of
             None \<Rightarrow> (Inr VNone, st)
           | Some v \<Rightarrow> (Inr v, st[a := VDict (AList.delete key d)]))
      | VList xs \<Rightarrow> (Inl TypeError, st)
      | _ \<Rightarrow> (Inl AttributeError, st))"

definition obj_update :: "addr \<Rightarrow> 'f pydict \<Rightarrow> 'f store \<Rightarrow> (error + unit) \<times> 'f store" where
  "obj_update a kvs st =
     (case st ! a of
        VDict d \<Rightarrow> (Inr (), st[a := VDict (dict_update d kvs)])
      | _ \<Rightarrow> (Inl AttributeError, st))"

definition obj_setitem :: "addr \<Rightarrow> string \<Rightarrow> 'f pyval \<Rightarrow> 'f store \<Rightarrow> (error + unit) \<times> 'f store" where
  "obj_setitem a key v st =
     (case st ! a of
        VDict d \<Rightarrow> (Inr (), st[a := VDict (AList.update key v d)])
      | _ \<Rightarrow> (Inl TypeError, st))"

text \<open>
  \<^verbatim>\<open>copy.deepcopy\<close> of the list of records. \<^verbatim>\<open>None\<close>, booleans, numbers and
  strings are returned as they are; any other object gets a new object of equal content
  at the next free address, and an object met twice is copied once (the memo).
\<close>

fun atomic :: "'f pyval \<Rightarrow> bool" where
  "atomic VNone = True"
| "atomic (VBool b) = True"
| "atomic (VInt n) = True"
| "atomic (VFloat x) = True"
| "atomic (VStr s) = True"
| "atomic v = False"

fun deepcopy_list :: "(addr \<times> addr) list \<Rightarrow> addr list \<Rightarrow> 'f store \<Rightarrow> addr list \<times> 'f store" where
  "deepcopy_list memo [] st = ([], st)"
| "deepcopy_list memo (a # as) st =
     (if atomic (st ! a) then
        (let (bs, st') = deepcopy_list memo as st in (a # bs, st'))
      else
        (case map_of memo a of
           Some b \<Rightarrow> (let (bs, st') = deepcopy_list memo as st in (b # bs, st'))
         | None \<Rightarrow>
             (let b = length st;
                  (bs, st') = deepcopy_list ((a, b) # memo) as (st @ [st ! a])
              in (b # bs, st'))))"

definition deepcopy :: "addr list \<Rightarrow> 'f store \<Rightarrow> addr list \<times> 'f store" where
  "deepcopy response st = deepcopy_list [] response st"

subsection \<open>The normaliser: \<^verbatim>\<open>ErgastResultFrame._prepare_response\<close>\<close>

text \<open>
  The columns that replace a sub-structure: the dictionary literal passed to
  \<^verbatim>\<open>update\<close>, its values evaluated from left to right.
\<close>

definition driver_columns :: "'f pyval \<Rightarrow> error + 'f pydict" where
  "driver_columns drv =
     bind_err (py_get drv ''code'' (VStr [])) (\<lambda>code.
     bind_err (py_get drv ''permanentNumber'' (VStr [])) (\<lambda>number.
     Inr [(''Driver'', code), (''DriverNumber'', number)]))"

fun constructor_names :: "'f pyval list \<Rightarrow> error + 'f pyval list" where
  "constructor_names [] = Inr []"
| "constructor_names (e # es) =
     bind_err (py_get e ''name'' (VStr [])) (\<lambda>name.
     bind_err (constructor_names es) (\<lambda>names. Inr (name # names)))"

definition constructor_columns :: "'f pyval \<Rightarrow> error + 'f pydict" where
  "constructor_columns constr =
     bind_err (py_iter constr) (\<lambda>es.
     bind_err (constructor_names es) (\<lambda>names.
     Inr [(''Constructors'', VList names)]))"

definition location_columns :: "'f float_builtin \<Rightarrow> 'f pyval \<Rightarrow> error + 'f pydict" where
  "location_columns F loc =
     bind_err (py_get loc ''lat'' (VInt 0)) (\<lambda>lat.
     bind_err (py_float F lat) (\<lambda>lat_float.
     bind_err (py_get loc ''long'' (VInt 0)) (\<lambda>long.
     bind_err (py_float F long) (\<lambda>long_float.
     bind_err (py_get loc ''locality'' (VStr [])) (\<lambda>locality.
     bind_err (py_get loc ''country'' (VStr [])) (\<lambda>country.
     Inr [(''Lat'', lat_float), (''Long'', long_float),
          (''Locality'', locality), (''Country'', country)]))))))"

text \<open>
  The statement \<^verbatim>\<open>if x := data[i].pop(key, None): data[i].update({...})\<close>, which
  the loop body holds three times; \<open>a\<close> is the address of \<^verbatim>\<open>data[i]\<close>.
\<close>

definition pop_and_update ::
  "'f float_builtin \<Rightarrow> string \<Rightarrow> ('f pyval \<Rightarrow> error + 'f pydict) \<Rightarrow> addr \<Rightarrow> 'f store
     \<Rightarrow> (error + unit) \<times> 'f store" where
  "pop_and_update F key columns a st =
     then_do (obj_pop a key st) (\<lambda>x st1.
       if truthy F x then
         (case columns x of
            Inl e \<Rightarrow> (Inl e, st1)
          | Inr kvs \<Rightarrow> obj_update a kvs st1)
       else (Inr (), st1))"

text \<open>
  The loop body for one index: \<open>a\<close> is the address of \<^verbatim>\<open>data[i]\<close> and \<open>orig\<close>
  that of \<^verbatim>\<open>response[i]\<close>.
\<close>

definition prepare_item ::
  "'f float_builtin \<Rightarrow> addr \<Rightarrow> addr \<Rightarrow> 'f store \<Rightarrow> (error + unit) \<times> 'f store" where
  "prepare_item F a orig st =
     then_do (pop_and_update F ''Driver'' driver_columns a st) (\<lambda>_ st1.
     then_do (pop_and_update F ''Constructors'' constructor_columns a st1) (\<lambda>_ st2.
     then_do (pop_and_update F ''Location'' (location_columns F) a st2) (\<lambda>_ st3.
     obj_setitem a ''__ErgastResponse'' (VItem orig) st3)))"

fun prepare_loop ::
  "'f float_builtin \<Rightarrow> addr list \<Rightarrow> addr list \<Rightarrow> nat list \<Rightarrow> 'f store
     \<Rightarrow> (error + unit) \<times> 'f store" where
  "prepare_loop F response data [] st = (Inr (), st)"
| "prepare_loop F response data (i # is) st =
     then_do (prepare_item F (data ! i) (response ! i) st) (\<lambda>_ st1.
     prepare_loop F response data is st1)"

text \<open>
  \<^verbatim>\<open>_prepare_response\<close>: the result is the list \<^verbatim>\<open>data\<close> (the addresses of the
  rows) or the exception that ended the loop, and the store as it is then.
\<close>

definition prepare_response ::
  "'f float_builtin \<Rightarrow> addr list \<Rightarrow> 'f store \<Rightarrow> (error + addr list) \<times> 'f store" where
  "prepare_response F response st =
     (let (data, st1) = deepcopy response st in
      then_do (prepare_loop F response data [0..<length data] st1) (\<lambda>_ st2.
      (Inr data, st2)))"

text \<open>
  The same loop body on a dictionary held by value: what one record's row becomes, or
  the exception. It is the reference the store-passing loop is compared with.
\<close>

definition flatten ::
  "'f float_builtin \<Rightarrow> string \<Rightarrow> ('f pyval \<Rightarrow> error + 'f pydict) \<Rightarrow> 'f pydict
     \<Rightarrow> error + 'f pydict" where
  "flatten F key columns d =
     (case map_of d key of
        None \<Rightarrow> Inr d
      | Some x \<Rightarrow>
          if truthy F x then
            bind_err (columns x) (\<lambda>kvs. Inr (dict_update (AList.delete key d) kvs))
          else Inr (AList.delete key d))"

definition normalized_row :: "'f float_builtin \<Rightarrow> 'f pydict \<Rightarrow> addr \<Rightarrow> error + 'f pydict" where
  "normalized_row F d orig =
     bind_err (flatten F ''Driver'' driver_columns d) (\<lambda>d1.
     bind_err (flatten F ''Constructors'' constructor_columns d1) (\<lambda>d2.
     bind_err (flatten F ''Location'' (location_columns F) d2) (\<lambda>d3.
     Inr (AList.update ''__ErgastResponse'' (VItem orig) d3))))"

text \<open>
  The rows of a whole response, each record normalised on its own and in order, the first
  exception ending it: a record is given as its items and its address.
\<close>

fun normalized_rows ::
  "'f float_builtin \<Rightarrow> ('f pydict \<times> addr) list \<Rightarrow> error + 'f pydict list" where
  "normalized_rows F [] = Inr []"
| "normalized_rows F (r # rs) =
     bind_err (normalized_row F (fst r) (snd r)) (\<lambda>row.
     bind_err (normalized_rows F rs) (\<lambda>rows. Inr (row # rows)))"

subsection \<open>The result table and its back-references\<close>

text \<open>
  \<^verbatim>\<open>ErgastResultFrame(None, response=...)\<close>: the rows that \<^verbatim>\<open>pandas\<close> builds
  from the list of dictionaries \<^verbatim>\<open>_prepare_response\<close> returns, one row for each, in
  order, a row being its columns by name. The hidden column \<^verbatim>\<open>__ErgastResponse\<close>
  keeps the wrapper objects themselves.
\<close>

fun items_of :: "'f pyval \<Rightarrow> 'f pydict" where
  "items_of (VDict d) = d"
| "items_of v = []"

definition ErgastResultFrame ::
  "'f float_builtin \<Rightarrow> addr list \<Rightarrow> 'f store \<Rightarrow> (error + 'f pydict list) \<times> 'f store" where
  "ErgastResultFrame F response st =
     then_do (prepare_response F response st) (\<lambda>data st1.
     (Inr (map (\<lambda>a. items_of (st1 ! a)) data), st1))"

text \<open>
  \<^verbatim>\<open>get_ergast_response\<close> of a frame: \<^verbatim>\<open>None\<close> when the frame has no column
  \<^verbatim>\<open>__ErgastResponse\<close>, else the \<^verbatim>\<open>_response\<close> attribute of each cell of the
  column, which is the address of an object. A cell that is no wrapper has no such
  attribute.
\<close>

fun response_attr :: "'f pyval option \<Rightarrow> error + addr" where
  "response_attr (Some (VItem a)) = Inr a"
| "response_attr v = Inl AttributeError"

fun response_attrs :: "'f pydict list \<Rightarrow> error + addr list" where
  "response_attrs [] = Inr []"
| "response_attrs (row # rows) =
     bind_err (response_attr (map_of row ''__ErgastResponse'')) (\<lambda>a.
     bind_err (response_attrs rows) (\<lambda>as. Inr (a # as)))"

definition get_ergast_response :: "'f pydict list \<Rightarrow> error + addr list option" where
  "get_ergast_response rows =
     (if list_ex (\<lambda>row. map_of row ''__ErgastResponse'' \<noteq> None) rows
      then bind_err (response_attrs rows) (\<lambda>as. Inr (Some as))
      else Inr None)"

subsection \<open>The accessors of \<^verbatim>\<open>ErgastSelectionObject\<close>\<close>

text \<open>
  \<^verbatim>\<open>ErgastResultFrame(None, response=resp)\<close> for the value \<open>resp\<close> that an accessor
  takes out of the decoded document. The elements of a list are the record objects:
  they make up the store, the element at position \<open>i\<close> at address \<open>i\<close>. For a value
  that is not a list the constructor still runs: \<^verbatim>\<open>len\<close> fails on a value without
  length; a dictionary or a string that is not empty fails at \<^verbatim>\<open>data[0]\<close> or at its
  \<^verbatim>\<open>pop\<close>; an empty dictionary gives a frame without rows, and \<^verbatim>\<open>pandas\<close>
  rejects an empty string.
\<close>

fun frame_of_response ::
  "'f float_builtin \<Rightarrow> 'f pyval \<Rightarrow> error + ('f pydict list \<times> 'f store)" where
  "frame_of_response F (VList vs) =
     (case ErgastResultFrame F [0..<length vs] vs of
        (Inl e, st) \<Rightarrow> Inl e
      | (Inr rows, st) \<Rightarrow> Inr (rows, st))"
| "frame_of_response F (VDict d) = (if d = [] then Inr ([], []) else Inl KeyError)"
| "frame_of_response F (VStr s) = (if s = [] then Inl ValueError else Inl AttributeError)"
| "frame_of_response F v = Inl TypeError"

definition get_circuits ::
  "'f float_builtin \<Rightarrow> 'f json_lib \<Rightarrow> (string \<Rightarrow> response) \<Rightarrow> ErgastSelectionObject \<Rightarrow> world
     \<Rightarrow> (error + ('f pydict list \<times> 'f store)) \<times> world" where
  "get_circuits F L server self w =
     (let url = base_url @ selector self @ ''/circuits.json'' in
      then_do (selection_get L server url w) (\<lambda>doc w1.
      (bind_err (getitem_path doc [''MRData'', ''CircuitTable'', ''Circuits'']) (\<lambda>resp.
       frame_of_response F resp), w1)))"

definition get_driver_standings ::
  "'f float_builtin \<Rightarrow> 'f json_lib \<Rightarrow> (string \<Rightarrow> response) \<Rightarrow> ErgastSelectionObject \<Rightarrow> world
     \<Rightarrow> (error + ('f pydict list \<times> 'f store)) \<times> world" where
  "get_driver_standings F L server self w =
     (let url = base_url @ selector self @ ''/driverStandings.json'' in
      then_do (selection_get L server url w) (\<lambda>doc w1.
      (bind_err (getitem_path doc [''MRData'', ''StandingsTable'', ''StandingsLists'']) (\<lambda>lists.
       bind_err (getitem_nat lists 0) (\<lambda>first.
       bind_err (getitem_str first ''DriverStandings'') (\<lambda>resp.
       frame_of_response F resp))), w1)))"

definition get_constructor_standings ::
  "'f float_builtin \<Rightarrow> 'f json_lib \<Rightarrow> (string \<Rightarrow> response) \<Rightarrow> ErgastSelectionObject \<Rightarrow> world
     \<Rightarrow> (error + ('f pydict list \<times> 'f store)) \<times> world" where
  "get_constructor_standings F L server self w =
     (let url = base_url @ selector self @ ''/constructorStandings.json'' in
      then_do (selection_get L server url w) (\<lambda>doc w1.
      (bind_err (getitem_path doc [''MRData'', ''StandingsTable'', ''StandingsLists'']) (\<lambda>lists.
       bind_err (getitem_nat lists 0) (\<lambda>first.
       bind_err (getitem_str first ''ConstructorStandings'') (\<lambda>resp.
       frame_of_response F resp))), w1)))"

subsection \<open>Instances of the parameters for the examples\<close>

text \<open>
  The examples below run the model on concrete inputs, which needs the parameters to be
  concrete too. Floats are written as reals: an integer converts to its value, and of
  the strings only the two coordinates the examples use are known to the conversion.
  The JSON library knows the documents listed, and the server answers three URLs.
\<close>

definition example_float :: "real float_builtin" where
  "example_float =
     \<lparr> float_of_int = (\<lambda>n. Some (of_int n)),
       float_of_str = map_of [(''-37.8497'', - 37.8497), (''144.968'', 144.968)],
       float_nonzero = (\<lambda>x. x \<noteq> 0) \<rparr>"

definition empty_standings :: "real pyval" where
  "empty_standings =
     VDict [(''MRData'', VDict [(''StandingsTable'', VDict [(''StandingsLists'', VList [])])])]"

definition example_lib :: "real json_lib" where
  \<open>example_lib =
     \<lparr> decode_utf8 = Some,
       json_loads = map_of
         [(''{"MRData": {"StandingsTable": {"StandingsLists": []}}}'', empty_standings),
          (''[]'', VList [])] \<rparr>\<close>

definition example_server :: "string \<Rightarrow> response" where
  \<open>example_server url =
     (if url = ''https://ergast.com/api/f1/2022/driverStandings.json''
         \<or> url = ''https://ergast.com/api/f1/2022/constructorStandings.json''
      then \<lparr> status_code = 200,
             content = ''{"MRData": {"StandingsTable": {"StandingsLists": []}}}'' \<rparr>
      else if url = ''https://ergast.com/api/f1/2021/circuits.json''
      then \<lparr> status_code = 200, content = ''<html>'' \<rparr>
      else \<lparr> status_code = 404, content = [] \<rparr>)\<close>

text \<open>
  Three responses as they sit in the store, each record at the address of its position:
  two driver standings, of which the second driver has neither code nor number; two
  circuits, of which the second has no coordinates; and a record without any of the
  three sub-structures.
\<close>

definition standings_store :: "real store" where
  "standings_store =
     [VDict [(''position'', VStr ''1''),
             (''Driver'', VDict [(''code'', VStr ''HAM''), (''permanentNumber'', VStr ''44'')]),
             (''Constructors'', VList [VDict [(''name'', VStr ''Mercedes'')]])],
      VDict [(''position'', VStr ''2''),
             (''Driver'', VDict [(''driverId'', VStr ''fangio'')])]]"


definition seasons_store :: "real store" where
  "seasons_store = [VDict [(''season'', VStr ''2022''), (''round'', VStr ''1'')]]"



definition null_lat_store :: "real store" where
  "null_lat_store = [VDict [(''circuitId'', VStr ''monza''), (''Location'', VDict [(''lat'', VNone)])]]"

text \<open>
  A response of one record that has none of the three sub-structures and a top-level
  field of its own under the name of the hidden column.
\<close>

definition hidden_key_store :: "real store" where
  "hidden_key_store = [VDict [(''__ErgastResponse'', VStr ''mine''), (''a'', VInt 1)]]"

definition quiet :: world where
  "quiet = \<lparr> requests = [], warnings = [] \<rparr>"

section \<open>Properties\<close>

subsection \<open>Sequencing\<close>

lemma bind_err_simps [simp]:
  "bind_err (Inl e) f = Inl e"
  "bind_err (Inr x) f = f x"
  by (simp_all add: bind_err_def)

lemma bind_err_eq_Inr: "bind_err r f = Inr y \<longleftrightarrow> (\<exists>x. r = Inr x \<and> f x = Inr y)"
  by (cases r) simp_all

lemma then_do_simps [simp]:
  "then_do (Inl e, s) f = (Inl e, s)"
  "then_do (Inr x, s) f = f x s"
  by (simp_all add: then_do_def)

subsection \<open>The store-passing loop against the rows of the records\<close>

text \<open>
  On a dictionary object, each statement of the loop body does to the object what
  \<open>flatten\<close> does to its items; so the body leaves the row \<open>normalized_row\<close> computes,
  the loop leaves the rows of its records and touches no other object, and the deep copy
  of distinct dictionary objects is a run of new objects behind the old ones.
\<close>

lemma pop_and_update_dict:
  assumes "a < length st" and "st ! a = VDict d"
  shows "\<exists>d'. pop_and_update F key cols a st
            = (case flatten F key cols d of Inl e \<Rightarrow> Inl e | Inr r \<Rightarrow> Inr (), st[a := VDict d'])
          \<and> (\<forall>r. flatten F key cols d = Inr r \<longrightarrow> d' = r)"
proof (cases "map_of d key")
  case None
  have "st[a := VDict d] = st" using assms(2) by (metis list_update_id)
  with None assms show ?thesis
    by (auto simp: pop_and_update_def obj_pop_def flatten_def intro!: exI[of _ d])
next
  case (Some x)
  show ?thesis
  proof (cases "truthy F x")
    case False
    with Some assms show ?thesis
      by (auto simp: pop_and_update_def obj_pop_def flatten_def)
  next
    case True
    show ?thesis
    proof (cases "cols x")
      case (Inl e)
      with True Some assms show ?thesis
        by (auto simp: pop_and_update_def obj_pop_def flatten_def)
    next
      case (Inr kvs)
      with True Some assms show ?thesis
        by (auto simp: pop_and_update_def obj_pop_def obj_update_def flatten_def)
    qed
  qed
qed

lemma prepare_item_dict:
  assumes "a < length st" and "st ! a = VDict d"
  shows "\<exists>d'. prepare_item F a orig st
            = (case normalized_row F d orig of Inl e \<Rightarrow> Inl e | Inr r \<Rightarrow> Inr (), st[a := VDict d'])
          \<and> (\<forall>r. normalized_row F d orig = Inr r \<longrightarrow> d' = r)"
proof -
  obtain d1 where s1: "pop_and_update F ''Driver'' driver_columns a st
      = (case flatten F ''Driver'' driver_columns d of Inl e \<Rightarrow> Inl e | Inr r \<Rightarrow> Inr (), st[a := VDict d1])"
    and r1: "\<forall>r. flatten F ''Driver'' driver_columns d = Inr r \<longrightarrow> d1 = r"
    using pop_and_update_dict[OF assms] by blast
  show ?thesis
  proof (cases "flatten F ''Driver'' driver_columns d")
    case (Inl e)
    with s1 show ?thesis by (auto simp: prepare_item_def normalized_row_def)
  next
    case f1: (Inr e1)
    with r1 have [simp]: "d1 = e1" by simp
    let ?st1 = "st[a := VDict e1]"
    have a1: "a < length ?st1" "?st1 ! a = VDict e1" using assms by simp_all
    obtain d2 where s2: "pop_and_update F ''Constructors'' constructor_columns a ?st1
        = (case flatten F ''Constructors'' constructor_columns e1 of Inl e \<Rightarrow> Inl e | Inr r \<Rightarrow> Inr (), ?st1[a := VDict d2])"
      and r2: "\<forall>r. flatten F ''Constructors'' constructor_columns e1 = Inr r \<longrightarrow> d2 = r"
      using pop_and_update_dict[OF a1] by blast
    show ?thesis
    proof (cases "flatten F ''Constructors'' constructor_columns e1")
      case (Inl e)
      with s1 s2 f1 show ?thesis by (auto simp: prepare_item_def normalized_row_def)
    next
      case f2: (Inr e2)
      with r2 have [simp]: "d2 = e2" by simp
      let ?st2 = "st[a := VDict e2]"
      have a2: "a < length ?st2" "?st2 ! a = VDict e2" using assms by simp_all
      obtain d3 where s3: "pop_and_update F ''Location'' (location_columns F) a ?st2
          = (case flatten F ''Location'' (location_columns F) e2 of Inl e \<Rightarrow> Inl e | Inr r \<Rightarrow> Inr (), ?st2[a := VDict d3])"
        and r3: "\<forall>r. flatten F ''Location'' (location_columns F) e2 = Inr r \<longrightarrow> d3 = r"
        using pop_and_update_dict[OF a2] by blast
      show ?thesis
      proof (cases "flatten F ''Location'' (location_columns F) e2")
        case (Inl e)
        with s1 s2 s3 f1 f2 show ?thesis by (auto simp: prepare_item_def normalized_row_def)
      next
        case f3: (Inr e3)
        with r3 have [simp]: "d3 = e3" by simp
        from s1 s2 s3 f1 f2 f3 assms show ?thesis
          by (auto simp: prepare_item_def normalized_row_def obj_setitem_def)
      qed
    qed
  qed
qed

lemma prepare_loop_rows:
  assumes "distinct (map (\<lambda>i. data ! i) is)"
    and "\<forall>i\<in>set is. data ! i < length st \<and> (\<exists>d. st ! (data ! i) = VDict d)"
  shows "\<exists>st'. prepare_loop F response data is st
             = (case normalized_rows F (map (\<lambda>i. (items_of (st ! (data ! i)), response ! i)) is) of
                  Inl e \<Rightarrow> Inl e | Inr rows \<Rightarrow> Inr (), st')
          \<and> length st' = length st
          \<and> (\<forall>a. a \<notin> (\<lambda>i. data ! i) ` set is \<longrightarrow> st' ! a = st ! a)
          \<and> (\<forall>rows. normalized_rows F (map (\<lambda>i. (items_of (st ! (data ! i)), response ! i)) is) = Inr rows
                \<longrightarrow> map (\<lambda>i. st' ! (data ! i)) is = map VDict rows)"
  using assms
proof (induction "is" arbitrary: st)
  case Nil
  then show ?case by simp
next
  case (Cons i "is")
  let ?a = "data ! i"
  from Cons.prems obtain d where a: "?a < length st" and d: "st ! ?a = VDict d" by auto
  obtain d' where item: "prepare_item F ?a (response ! i) st
        = (case normalized_row F d (response ! i) of Inl e \<Rightarrow> Inl e | Inr r \<Rightarrow> Inr (), st[?a := VDict d'])"
    and d': "\<forall>r. normalized_row F d (response ! i) = Inr r \<longrightarrow> d' = r"
    using prepare_item_dict[OF a d] by blast
  show ?case
  proof (cases "normalized_row F d (response ! i)")
    case (Inl e)
    with item d show ?thesis
      by (intro exI[of _ "st[?a := VDict d']"]) (auto simp: nth_list_update)
  next
    case (Inr row)
    with d' have [simp]: "d' = row" by simp
    let ?st1 = "st[?a := VDict row]"
    have other: "\<forall>j\<in>set is. data ! j \<noteq> ?a" using Cons.prems(1) by (force simp: image_iff)
    have same: "\<forall>j\<in>set is. ?st1 ! (data ! j) = st ! (data ! j)" using other by (metis nth_list_update_neq)
    have p1: "distinct (map (\<lambda>i. data ! i) is)" using Cons.prems(1) by simp
    have p2: "\<forall>j\<in>set is. data ! j < length ?st1 \<and> (\<exists>d. ?st1 ! (data ! j) = VDict d)"
      using Cons.prems(2) same by simp
    have rows_eq: "map (\<lambda>j. (items_of (?st1 ! (data ! j)), response ! j)) is
          = map (\<lambda>j. (items_of (st ! (data ! j)), response ! j)) is"
      using same by simp
    from Cons.IH[OF p1 p2] obtain st' where
      loop: "prepare_loop F response data is ?st1
             = (case normalized_rows F (map (\<lambda>j. (items_of (st ! (data ! j)), response ! j)) is) of
                  Inl e \<Rightarrow> Inl e | Inr rows \<Rightarrow> Inr (), st')"
      and len: "length st' = length ?st1"
      and frame: "\<forall>b. b \<notin> (\<lambda>i. data ! i) ` set is \<longrightarrow> st' ! b = ?st1 ! b"
      and rows: "\<forall>rows. normalized_rows F (map (\<lambda>j. (items_of (st ! (data ! j)), response ! j)) is) = Inr rows
                \<longrightarrow> map (\<lambda>i. st' ! (data ! i)) is = map VDict rows"
      unfolding rows_eq by blast
    have ai: "?a \<notin> (\<lambda>i. data ! i) ` set is" using other by auto
    have sta: "st' ! ?a = VDict row" using frame ai a by simp
    show ?thesis
    proof (intro exI[of _ st'] conjI allI impI)
      show "prepare_loop F response data (i # is) st =
        (case normalized_rows F (map (\<lambda>i. (items_of (st ! (data ! i)), response ! i)) (i # is)) of
           Inl e \<Rightarrow> Inl e | Inr rows \<Rightarrow> Inr (), st')"
        using item Inr loop d by (simp split: sum.splits)
      show "length st' = length st" using len by simp
      show "st' ! b = st ! b" if "b \<notin> (\<lambda>i. data ! i) ` set (i # is)" for b
        using that frame by simp
      show "map (\<lambda>i. st' ! (data ! i)) (i # is) = map VDict rows"
        if "normalized_rows F (map (\<lambda>i. (items_of (st ! (data ! i)), response ! i)) (i # is)) = Inr rows" for rows
        using that rows sta Inr d by (auto simp: bind_err_eq_Inr)
    qed
  qed
qed

lemma deepcopy_list_fresh:
  assumes "distinct as"
    and "\<forall>a\<in>set as. a < length st \<and> \<not> atomic (st ! a)"
    and "\<forall>a\<in>set as. map_of memo a = None"
  shows "deepcopy_list memo as st
           = ([length st ..< length st + length as], st @ map (\<lambda>a. st ! a) as)"
  using assms
proof (induction as arbitrary: memo st)
  case Nil
  then show ?case by simp
next
  case (Cons a as)
  let ?st1 = "st @ [st ! a]"
  have p1: "distinct as" using Cons.prems(1) by simp
  have p2: "\<forall>b\<in>set as. b < length ?st1 \<and> \<not> atomic (?st1 ! b)"
    using Cons.prems(2) by (auto simp: nth_append)
  have p3: "\<forall>b\<in>set as. map_of ((a, length st) # memo) b = None"
    using Cons.prems(1,3) by auto
  have same: "map (\<lambda>b. ?st1 ! b) as = map (\<lambda>b. st ! b) as"
    using Cons.prems(2) by (auto simp: nth_append)
  have "deepcopy_list ((a, length st) # memo) as ?st1
          = ([length ?st1 ..< length ?st1 + length as], ?st1 @ map (\<lambda>b. ?st1 ! b) as)"
    by (rule Cons.IH[OF p1 p2 p3])
  moreover have "[length st ..< length st + length (a # as)]
      = length st # [length ?st1 ..< length ?st1 + length as]"
    by (simp add: upt_conv_Cons del: upt_Suc)
  ultimately show ?case using Cons.prems same
    by (simp add: Let_def del: upt_Suc)
qed

lemma prepare_response_rows:
  assumes dist: "distinct response"
    and dicts: "\<forall>a\<in>set response. a < length st \<and> (\<exists>d. st ! a = VDict d)"
  shows "\<exists>st'. prepare_response F response st
             = (case normalized_rows F (map (\<lambda>a. (items_of (st ! a), a)) response) of
                  Inl e \<Rightarrow> Inl e
                | Inr rows \<Rightarrow> Inr [length st ..< length st + length response], st')
          \<and> length st' = length st + length response
          \<and> take (length st) st' = st
          \<and> (\<forall>rows. normalized_rows F (map (\<lambda>a. (items_of (st ! a), a)) response) = Inr rows
                \<longrightarrow> drop (length st) st' = map VDict rows)"
proof -
  let ?n = "length st" and ?k = "length response"
  let ?data = "[?n ..< ?n + ?k]"
  let ?st1 = "st @ map (\<lambda>a. st ! a) response"
  have nonatomic: "\<forall>a\<in>set response. a < length st \<and> \<not> atomic (st ! a)"
    using dicts by auto
  have copy: "deepcopy response st = (?data, ?st1)"
    unfolding deepcopy_def by (rule deepcopy_list_fresh[OF dist nonatomic]) simp
  have data_nth: "?data ! i = ?n + i" if "i < ?k" for i using that by simp
  have cell: "?st1 ! (?n + i) = st ! (response ! i)" if "i < ?k" for i
    using that by (simp add: nth_append)
  have l1: "distinct (map (\<lambda>i. ?data ! i) [0..<?k])"
    by (simp add: distinct_map inj_on_def)
  have l2: "\<forall>i\<in>set [0..<?k]. ?data ! i < length ?st1 \<and> (\<exists>d. ?st1 ! (?data ! i) = VDict d)"
    using dicts cell by (auto simp: nth_append)
  have recs: "map (\<lambda>i. (items_of (?st1 ! (?data ! i)), response ! i)) [0..<?k]
        = map (\<lambda>a. (items_of (st ! a), a)) response"
    by (rule nth_equalityI) (simp_all add: nth_append)
  from prepare_loop_rows[OF l1 l2, of F response] obtain st' where
    loop: "prepare_loop F response ?data [0..<?k] ?st1
             = (case normalized_rows F (map (\<lambda>a. (items_of (st ! a), a)) response) of
                  Inl e \<Rightarrow> Inl e | Inr rows \<Rightarrow> Inr (), st')"
    and len: "length st' = length ?st1"
    and frame: "\<forall>a. a \<notin> (\<lambda>i. ?data ! i) ` set [0..<?k] \<longrightarrow> st' ! a = ?st1 ! a"
    and rows: "\<forall>rows. normalized_rows F (map (\<lambda>a. (items_of (st ! a), a)) response) = Inr rows
                \<longrightarrow> map (\<lambda>i. st' ! (?data ! i)) [0..<?k] = map VDict rows"
    unfolding recs by blast
  have old: "st' ! a = st ! a" if "a < ?n" for a
  proof -
    have "a \<notin> (\<lambda>i. ?data ! i) ` set [0..<?k]" using that by auto
    with frame have "st' ! a = ?st1 ! a" by blast
    with that show ?thesis by (simp add: nth_append)
  qed
  have tk: "take ?n st' = st"
    by (rule nth_equalityI) (use len old in simp_all)
  have dr: "drop ?n st' = map (\<lambda>i. st' ! (?data ! i)) [0..<?k]"
    by (rule nth_equalityI) (use len in simp_all)
  show ?thesis
  proof (intro exI[of _ st'] conjI allI impI)
    show "prepare_response F response st
             = (case normalized_rows F (map (\<lambda>a. (items_of (st ! a), a)) response) of
                  Inl e \<Rightarrow> Inl e
                | Inr rows \<Rightarrow> Inr ?data, st')"
      using copy loop by (simp add: prepare_response_def split: sum.splits)
    show "length st' = ?n + ?k" using len by simp
    show "take ?n st' = st" by (rule tk)
    show "drop ?n st' = map VDict rows"
      if "normalized_rows F (map (\<lambda>a. (items_of (st ! a), a)) response) = Inr rows" for rows
      using that rows dr by simp
  qed
qed

lemma normalized_rows_Inr:
  "normalized_rows F rs = Inr rows \<longleftrightarrow>
     length rows = length rs
     \<and> (\<forall>i<length rs. normalized_row F (fst (rs ! i)) (snd (rs ! i)) = Inr (rows ! i))"
proof (induction rs arbitrary: rows)
  case Nil
  then show ?case by auto
next
  case (Cons r rs)
  show ?case
  proof (cases rows)
    case Nil
    then show ?thesis by (auto simp: bind_err_eq_Inr)
  next
    case (Cons row rows')
    then show ?thesis
      using Cons.IH[of rows'] by (auto simp: bind_err_eq_Inr nth_Cons split: nat.splits)
  qed
qed

lemma normalized_rows_Inl:
  "(\<exists>e. normalized_rows F rs = Inl e) \<longleftrightarrow>
     (\<exists>i<length rs. \<exists>e. normalized_row F (fst (rs ! i)) (snd (rs ! i)) = Inl e)"
proof -
  have "(\<exists>rows. normalized_rows F rs = Inr rows)
        \<longleftrightarrow> (\<forall>i<length rs. \<exists>row. normalized_row F (fst (rs ! i)) (snd (rs ! i)) = Inr row)"
  proof
    assume "\<exists>rows. normalized_rows F rs = Inr rows"
    then show "\<forall>i<length rs. \<exists>row. normalized_row F (fst (rs ! i)) (snd (rs ! i)) = Inr row"
      by (auto simp: normalized_rows_Inr)
  next
    assume ok: "\<forall>i<length rs. \<exists>row. normalized_row F (fst (rs ! i)) (snd (rs ! i)) = Inr row"
    then show "\<exists>rows. normalized_rows F rs = Inr rows"
    proof (induction rs)
      case Nil
      then show ?case by simp
    next
      case (Cons r rs)
      from Cons.prems have "\<exists>row. normalized_row F (fst r) (snd r) = Inr row" by force
      moreover from Cons.prems have "\<forall>i<length rs. \<exists>row. normalized_row F (fst (rs ! i)) (snd (rs ! i)) = Inr row"
        by force
      ultimately show ?case using Cons.IH by auto
    qed
  qed
  then show ?thesis
    by (metis sum.exhaust sum.distinct(1) Inl_Inr_False)
qed

subsection \<open>What the normaliser writes to\<close>

text \<open>
  The objects below an address \<open>n\<close> are left as they are by every method call on an
  object at or above \<open>n\<close>, and by the loop body on an object that is no dictionary. The
  deep copy returns new addresses, or the address of a value that is copied as itself.
\<close>

lemma then_do_frame:
  assumes "take n (snd r) = take n st"
    and "\<And>x s. take n s = take n st \<Longrightarrow> take n (snd (f x s)) = take n st"
  shows "take n (snd (then_do r f)) = take n st"
  using assms by (cases r) (auto simp: then_do_def split: sum.splits)

lemma obj_pop_frame: "n \<le> a \<Longrightarrow> take n (snd (obj_pop a key st)) = take n st"
  by (simp add: obj_pop_def split: pyval.splits option.splits)

lemma obj_update_frame: "n \<le> a \<Longrightarrow> take n (snd (obj_update a kvs st)) = take n st"
  by (simp add: obj_update_def split: pyval.splits)

lemma obj_setitem_frame: "n \<le> a \<Longrightarrow> take n (snd (obj_setitem a key v st)) = take n st"
  by (simp add: obj_setitem_def split: pyval.splits)

lemma pop_and_update_frame:
  assumes "n \<le> a"
  shows "take n (snd (pop_and_update F key cols a st)) = take n st"
  unfolding pop_and_update_def
proof (rule then_do_frame)
  show "take n (snd (obj_pop a key st)) = take n st" by (rule obj_pop_frame[OF assms])
next
  fix x s
  assume "take n s = take n st"
  then show "take n (snd (if truthy F x
                then case cols x of Inl e \<Rightarrow> (Inl e, s) | Inr kvs \<Rightarrow> obj_update a kvs s
                else (Inr (), s))) = take n st"
    using obj_update_frame[OF assms, of kvs s for kvs] by (simp split: sum.splits)
qed

lemma prepare_item_frame_fresh:
  assumes "n \<le> a"
  shows "take n (snd (prepare_item F a orig st)) = take n st"
  unfolding prepare_item_def
  by (intro then_do_frame)
     (simp_all add: pop_and_update_frame[OF assms] obj_setitem_frame[OF assms])

lemma prepare_item_atomic:
  assumes "atomic (st ! a)"
  shows "snd (prepare_item F a orig st) = st"
  using assms
  by (cases "st ! a") (simp_all add: prepare_item_def pop_and_update_def obj_pop_def)

lemma prepare_item_frame:
  assumes "a < n \<longrightarrow> atomic (st ! a)"
  shows "take n (snd (prepare_item F a orig st)) = take n st"
proof (cases "a < n")
  case True
  with assms show ?thesis by (simp add: prepare_item_atomic)
next
  case False
  then show ?thesis by (simp add: prepare_item_frame_fresh)
qed

lemma prepare_loop_frame:
  assumes "\<forall>i\<in>set is. data ! i < n \<longrightarrow> atomic (st ! (data ! i))"
  shows "take n (snd (prepare_loop F response data is st)) = take n st"
  using assms
proof (induction "is" arbitrary: st)
  case Nil
  then show ?case by simp
next
  case (Cons i "is")
  obtain r st1 where item: "prepare_item F (data ! i) (response ! i) st = (r, st1)"
    by (cases "prepare_item F (data ! i) (response ! i) st")
  have t1: "take n st1 = take n st"
    using prepare_item_frame[of "data ! i" n st F "response ! i"] Cons.prems item by simp
  have same: "st1 ! b = st ! b" if "b < n" for b
    using t1 that by (metis nth_take)
  show ?case
  proof (cases r)
    case (Inl e)
    with item t1 show ?thesis by simp
  next
    case (Inr u)
    have "\<forall>j\<in>set is. data ! j < n \<longrightarrow> atomic (st1 ! (data ! j))"
      using Cons.prems same by simp
    from Cons.IH[OF this] item Inr t1 show ?thesis by simp
  qed
qed

lemma deepcopy_list_frame:
  assumes "n \<le> length st" and "\<forall>b\<in>snd ` set memo. n \<le> b"
    and "deepcopy_list memo as st = (bs, st')"
  shows "take n st' = take n st \<and> (\<forall>b\<in>set bs. b < n \<longrightarrow> atomic (st ! b))"
  using assms
proof (induction as arbitrary: memo st bs st')
  case Nil
  then show ?case by simp
next
  case (Cons a as)
  show ?case
  proof (cases "atomic (st ! a)")
    case True
    obtain bs1 st1 where rec: "deepcopy_list memo as st = (bs1, st1)"
      by (cases "deepcopy_list memo as st")
    with Cons.prems(3) True have "bs = a # bs1" "st' = st1" by simp_all
    with Cons.IH[OF Cons.prems(1,2) rec] True show ?thesis by simp
  next
    case False
    show ?thesis
    proof (cases "map_of memo a")
      case (Some b)
      obtain bs1 st1 where rec: "deepcopy_list memo as st = (bs1, st1)"
        by (cases "deepcopy_list memo as st")
      with Cons.prems(3) False Some have eq: "bs = b # bs1" "st' = st1" by simp_all
      from Some have "(a, b) \<in> set memo" by (rule map_of_SomeD)
      then have "n \<le> b" using Cons.prems(2) by force
      with Cons.IH[OF Cons.prems(1,2) rec] eq show ?thesis by simp
    next
      case None
      let ?st1 = "st @ [st ! a]"
      obtain bs1 st1 where rec: "deepcopy_list ((a, length st) # memo) as ?st1 = (bs1, st1)"
        by (cases "deepcopy_list ((a, length st) # memo) as ?st1")
      with Cons.prems(3) False None have eq: "bs = length st # bs1" "st' = st1"
        by (simp_all add: Let_def)
      have p1: "n \<le> length ?st1" using Cons.prems(1) by simp
      have p2: "\<forall>b\<in>snd ` set ((a, length st) # memo). n \<le> b"
        using Cons.prems(1,2) by simp
      from Cons.IH[OF p1 p2 rec]
      have "take n st1 = take n ?st1" and "\<forall>b\<in>set bs1. b < n \<longrightarrow> atomic (?st1 ! b)"
        by simp_all
      with eq Cons.prems(1) show ?thesis by (auto simp: nth_append)
    qed
  qed
qed

lemma prepare_response_frame:
  "take (length st) (snd (prepare_response F response st)) = st"
proof -
  obtain data st1 where copy: "deepcopy response st = (data, st1)"
    by (cases "deepcopy response st")
  then have "deepcopy_list [] response st = (data, st1)" by (simp add: deepcopy_def)
  from deepcopy_list_frame[OF _ _ this, of "length st"]
  have t1: "take (length st) st1 = st"
    and at: "\<forall>b\<in>set data. b < length st \<longrightarrow> atomic (st ! b)" by simp_all
  have same: "st1 ! b = st ! b" if "b < length st" for b
    using t1 that by (metis nth_take)
  have "\<forall>i\<in>set [0..<length data]. data ! i < length st \<longrightarrow> atomic (st1 ! (data ! i))"
    using at same by simp
  from prepare_loop_frame[OF this, of F response]
  have "take (length st) (snd (prepare_loop F response data [0..<length data] st1)) = st"
    using t1 by simp
  then show ?thesis
    using copy
    by (cases "prepare_loop F response data [0..<length data] st1")
       (auto simp: prepare_response_def then_do_def split: sum.splits)
qed


subsection \<open>What a row holds\<close>







lemma flatten_absent: "map_of d key = None \<Longrightarrow> flatten F key cols d = Inr d"
  by (simp add: flatten_def)


lemma normalized_row_steps:
  assumes "normalized_row F d orig = Inr row"
  obtains d1 d2 d3 where
    "flatten F ''Driver'' driver_columns d = Inr d1"
    "flatten F ''Constructors'' constructor_columns d1 = Inr d2"
    "flatten F ''Location'' (location_columns F) d2 = Inr d3"
    "row = AList.update ''__ErgastResponse'' (VItem orig) d3"
  using assms by (auto simp: normalized_row_def bind_err_eq_Inr)

lemma normalized_row_hidden:
  assumes "normalized_row F d orig = Inr row"
  shows "map_of row ''__ErgastResponse'' = Some (VItem orig)"
  using assms by (auto elim!: normalized_row_steps simp: update_conv')






lemma map_of_update_hidden:
  "k \<noteq> ''__ErgastResponse'' \<Longrightarrow> map_of (AList.update ''__ErgastResponse'' v d) k = map_of d k"
  by (simp add: update_conv')





lemma normalized_row_pass_through:
  assumes "map_of d ''Driver'' = None" "map_of d ''Constructors'' = None"
    "map_of d ''Location'' = None"
  shows "normalized_row F d orig = Inr (AList.update ''__ErgastResponse'' (VItem orig) d)"
  using assms by (simp add: normalized_row_def flatten_absent)

lemma response_attrs_rows:
  "normalized_rows F rs = Inr rows \<Longrightarrow> response_attrs rows = Inr (map snd rs)"
proof (induction rs arbitrary: rows)
  case Nil
  then show ?case by simp
next
  case (Cons r rs)
  from Cons.prems obtain row rows' where
    row: "normalized_row F (fst r) (snd r) = Inr row"
    and rest: "normalized_rows F rs = Inr rows'" and rows: "rows = row # rows'"
    by (auto simp: bind_err_eq_Inr)
  from normalized_row_hidden[OF row] Cons.IH[OF rest] show ?case
    unfolding rows by simp
qed

lemma get_ergast_response_rows:
  assumes "normalized_rows F rs = Inr rows"
  shows "get_ergast_response rows = Inr (if rs = [] then None else Some (map snd rs))"
proof (cases rs)
  case Nil
  with assms show ?thesis by (simp add: get_ergast_response_def)
next
  case (Cons r rs')
  with assms obtain row rows' where
    row: "normalized_row F (fst r) (snd r) = Inr row" and rows: "rows = row # rows'"
    by (auto simp: bind_err_eq_Inr)
  have "list_ex (\<lambda>row. map_of row ''__ErgastResponse'' \<noteq> None) rows"
    unfolding rows using normalized_row_hidden[OF row] by simp
  with response_attrs_rows[OF assms] Cons show ?thesis
    by (simp add: get_ergast_response_def)
qed

lemma nth_interval_drop:
  "length xs = n + k \<Longrightarrow> map (\<lambda>a. f (xs ! a)) [n..<n + k] = map f (drop n xs)"
  by (rule nth_equalityI) simp_all

lemma frame_store: "snd (ErgastResultFrame F response st) = snd (prepare_response F response st)"
  by (cases "prepare_response F response st")
     (auto simp: ErgastResultFrame_def then_do_def split: sum.splits)

lemma frame_rows:
  assumes "distinct response"
    and "\<forall>a\<in>set response. a < length st \<and> (\<exists>d. st ! a = VDict d)"
  shows "fst (ErgastResultFrame F response st)
           = normalized_rows F (map (\<lambda>a. (items_of (st ! a), a)) response)"
proof -
  let ?n = "length st" and ?k = "length response"
  let ?rows = "normalized_rows F (map (\<lambda>a. (items_of (st ! a), a)) response)"
  from prepare_response_rows[OF assms, of F] obtain st' where
    run: "prepare_response F response st
             = (case ?rows of Inl e \<Rightarrow> Inl e | Inr rows \<Rightarrow> Inr [?n ..< ?n + ?k], st')"
    and len: "length st' = ?n + ?k"
    and rows: "\<forall>rows. ?rows = Inr rows \<longrightarrow> drop ?n st' = map VDict rows"
    by blast
  show ?thesis
  proof (cases ?rows)
    case (Inl e)
    with run show ?thesis by (simp add: ErgastResultFrame_def)
  next
    case (Inr rs)
    with rows have "drop ?n st' = map VDict rs" by simp
    then have "map (\<lambda>a. items_of (st' ! a)) [?n ..< ?n + ?k] = rs"
      using nth_interval_drop[OF len, of items_of] by (simp add: comp_def)
    with run Inr show ?thesis by (simp add: ErgastResultFrame_def)
  qed
qed

subsection \<open>Selector builder\<close>

text \<open>
  Claim C1. For every combination of the five optional filter arguments, the selector
  that \<^verbatim>\<open>select\<close> produces is the concatenation of exactly one path segment
  for each argument that is not \<^verbatim>\<open>None\<close>, in the fixed order season, round,
  circuit, constructor, driver: the number of segments is the number of arguments
  supplied, and the selector is the empty string when all five are left out.
\<close>

theorem select_segments_in_order:
  "selector (select season round' circuit constructor driver)
     = concat (selector_segments season round' circuit constructor driver)
   \<and> length (selector_segments season round' circuit constructor driver)
     = length (filter (\<lambda>a. a \<noteq> None) [season, round', circuit, constructor, driver])
   \<and> selector (select None None None None None) = ''''"
  by (cases season; cases round'; cases circuit; cases constructor; cases driver)
     (simp_all add: select_def selector_segments_def)

subsection \<open>The examples, evaluated\<close>

lemma select_2022: "selector (select (Some (ArgInt 2022)) None None None None) = ''/2022''"
  by code_simp

lemma url_1949:
  "base_url @ ''/'' @ format_arg (ArgInt 1949) @ ''.json'' = ''https://ergast.com/api/f1/1949.json''"
  by code_simp

lemma str_404: "str_of_int 404 = ''404''"
  by code_simp

lemma get_2022_driver:
  "selection_get example_lib example_server
     (base_url @ selector (select (Some (ArgInt 2022)) None None None None)
        @ ''/driverStandings.json'') quiet
   = (Inr empty_standings,
      \<lparr> requests = [''https://ergast.com/api/f1/2022/driverStandings.json''],
        warnings = [] \<rparr>)"
  by (simp add: select_2022 base_url_def selection_get_def requests_get_def example_server_def
      example_lib_def loads_content_def quiet_def)

lemma get_2022_constructor:
  "selection_get example_lib example_server
     (base_url @ selector (select (Some (ArgInt 2022)) None None None None)
        @ ''/constructorStandings.json'') quiet
   = (Inr empty_standings,
      \<lparr> requests = [''https://ergast.com/api/f1/2022/constructorStandings.json''],
        warnings = [] \<rparr>)"
  by (simp add: select_2022 base_url_def selection_get_def requests_get_def example_server_def
      example_lib_def loads_content_def quiet_def)

lemma empty_standings_path:
  "getitem_path empty_standings [''MRData'', ''StandingsTable'', ''StandingsLists'']
     = Inr (VList [])"
  by (simp add: empty_standings_def)

lemma fetch_day_sprint_404:
  "fetch_day example_lib example_server (ArgInt 2022) (ArgInt 1) ''sprint'' quiet
     = (Inr VNone,
        \<lparr> requests = [''https://ergast.com/api/f1/2022/1/sprint.json''],
          warnings = [''Request returned: 404''] \<rparr>)"
  by code_simp

subsection \<open>Requests and their errors\<close>

text \<open>
  Claim C6. A request of a selector-scoped accessor (\<^verbatim>\<open>_get\<close>) has three outcomes
  and no other. With status 200 and a content that decodes as UTF-8 JSON, the decoded
  structure is returned. With status 200 and a content whose decoding raises, whatever
  the exception, \<^verbatim>\<open>ErgastJsonException\<close> is raised, its message holding the URL. With
  any other status \<^verbatim>\<open>ErgastInvalidRequest\<close> is raised, its message holding the URL.
  In each case exactly one request has been made, for that URL, so nothing is retried,
  and no warning is emitted.
\<close>

theorem selection_get_outcomes:
  "(status_code (server url) = 200 \<and> loads_content L (server url) = Inr v
      \<longrightarrow> fst (selection_get L server url w) = Inr v)
   \<and> (status_code (server url) = 200 \<and> loads_content L (server url) = Inl exc
      \<longrightarrow> fst (selection_get L server url w)
            = Inl (ErgastJsonException (''Failed to parse Ergast response ('' @ url @ '')'')))
   \<and> (status_code (server url) \<noteq> 200
      \<longrightarrow> fst (selection_get L server url w)
            = Inl (ErgastInvalidRequest (''Invalid request to Ergast ('' @ url @ '')'')))
   \<and> (case fst (selection_get L server url w) of
         Inr v \<Rightarrow> status_code (server url) = 200 \<and> loads_content L (server url) = Inr v
       | Inl e \<Rightarrow> is_ErgastException e)
   \<and> requests (snd (selection_get L server url w)) = requests w @ [url]
   \<and> warnings (snd (selection_get L server url w)) = warnings w"
  by (auto simp: selection_get_def requests_get_def split: sum.splits)

theorem selection_get_outcomes_witness:
  "fst (selection_get example_lib example_server
          ''https://ergast.com/api/f1/2022/driverStandings.json'' quiet) = Inr empty_standings
   \<and> fst (selection_get example_lib example_server
          ''https://ergast.com/api/f1/2021/circuits.json'' quiet)
       = Inl (ErgastJsonException
           ''Failed to parse Ergast response (https://ergast.com/api/f1/2021/circuits.json)'')
   \<and> fst (selection_get example_lib example_server
          ''https://ergast.com/api/f1/1949/circuits.json'' quiet)
       = Inl (ErgastInvalidRequest
           ''Invalid request to Ergast (https://ergast.com/api/f1/1949/circuits.json)'')
   \<and> requests (snd (selection_get example_lib example_server
          ''https://ergast.com/api/f1/1949/circuits.json'' quiet))
       = [''https://ergast.com/api/f1/1949/circuits.json'']"
proof -
  have a: "status_code (example_server ''https://ergast.com/api/f1/2022/driverStandings.json'') = 200
      \<and> loads_content example_lib
           (example_server ''https://ergast.com/api/f1/2022/driverStandings.json'')
          = Inr empty_standings"
    by (simp add: example_server_def example_lib_def loads_content_def)
  have b: "status_code (example_server ''https://ergast.com/api/f1/2021/circuits.json'') = 200
      \<and> loads_content example_lib (example_server ''https://ergast.com/api/f1/2021/circuits.json'')
          = Inl JSONDecodeError"
    by (simp add: example_server_def example_lib_def loads_content_def)
  have c: "status_code (example_server ''https://ergast.com/api/f1/1949/circuits.json'') \<noteq> 200"
    by (simp add: example_server_def)
  show ?thesis
    using a b c
      selection_get_outcomes[where server = example_server and L = example_lib and w = quiet
        and url = "''https://ergast.com/api/f1/2022/driverStandings.json''"
        and v = empty_standings]
      selection_get_outcomes[where server = example_server and L = example_lib and w = quiet
        and url = "''https://ergast.com/api/f1/2021/circuits.json''"
        and exc = JSONDecodeError]
      selection_get_outcomes[where server = example_server and L = example_lib and w = quiet
        and url = "''https://ergast.com/api/f1/1949/circuits.json''"]
    by (simp add: quiet_def)
qed

text \<open>
  Claim C7, as amended. When the document's
  \<^verbatim>\<open>MRData.StandingsTable.StandingsLists\<close> is the empty list,
  \<^verbatim>\<open>get_driver_standings\<close> raises Python's \<^verbatim>\<open>IndexError\<close>, from the subscript
  \<^verbatim>\<open>[0]\<close>, and so does \<^verbatim>\<open>get_constructor_standings\<close>. The module has no
  exception of its own for standings that are missing.
\<close>

theorem empty_standings_raise_IndexError:
  "(selection_get L server (base_url @ selector self @ ''/driverStandings.json'') w
        = (Inr doc, w1)
      \<and> getitem_path doc [''MRData'', ''StandingsTable'', ''StandingsLists''] = Inr (VList [])
     \<longrightarrow> get_driver_standings F L server self w = (Inl IndexError, w1))
   \<and> (selection_get L server (base_url @ selector self @ ''/constructorStandings.json'') w
        = (Inr doc', w1')
      \<and> getitem_path doc' [''MRData'', ''StandingsTable'', ''StandingsLists''] = Inr (VList [])
     \<longrightarrow> get_constructor_standings F L server self w = (Inl IndexError, w1'))"
  by (simp add: get_driver_standings_def get_constructor_standings_def)

theorem empty_standings_raise_IndexError_witness:
  "get_driver_standings example_float example_lib example_server
       (select (Some (ArgInt 2022)) None None None None) quiet
     = (Inl IndexError,
        \<lparr> requests = [''https://ergast.com/api/f1/2022/driverStandings.json''],
          warnings = [] \<rparr>)
   \<and> get_constructor_standings example_float example_lib example_server
       (select (Some (ArgInt 2022)) None None None None) quiet
     = (Inl IndexError,
        \<lparr> requests = [''https://ergast.com/api/f1/2022/constructorStandings.json''],
          warnings = [] \<rparr>)"
  using empty_standings_raise_IndexError[where L = example_lib and server = example_server
      and self = "select (Some (ArgInt 2022)) None None None None" and w = quiet
      and doc = empty_standings and doc' = empty_standings and F = example_float]
    get_2022_driver get_2022_constructor empty_standings_path
  by simp

text \<open>
  The claim as the specification states it fails: on a document with an empty
  \<^verbatim>\<open>StandingsLists\<close> the exception is \<^verbatim>\<open>IndexError\<close>, which is none of the
  module's \<^verbatim>\<open>ErgastException\<close> classes.
\<close>

theorem empty_standings_not_ergast_error:
  "fst (get_driver_standings example_float example_lib example_server
       (select (Some (ArgInt 2022)) None None None None) quiet) = Inl IndexError
   \<and> \<not> is_ErgastException IndexError"
  using get_2022_driver empty_standings_path
  by (simp add: get_driver_standings_def)

text \<open>
  Claim C8. The specification has \<^verbatim>\<open>fetch_season\<close> answer a status other than 200
  with a warning and an absent result. The code emits the warning and
  \<^verbatim>\<open>_parse_json_response\<close> returns \<^verbatim>\<open>None\<close>, but \<^verbatim>\<open>fetch_season\<close> hands that
  \<^verbatim>\<open>None\<close> to \<^verbatim>\<open>_parse_ergast\<close>, whose subscript \<^verbatim>\<open>None['MRData']\<close> raises
  \<^verbatim>\<open>TypeError\<close>: for every status other than 200 the call ends in that exception.
\<close>

theorem fetch_season_non_200_raises:
  assumes "status_code (server (base_url @ ''/'' @ format_arg year @ ''.json'')) \<noteq> 200"
  shows "fetch_season L server year w
           = (Inl TypeError,
              \<lparr> requests = requests w @ [base_url @ ''/'' @ format_arg year @ ''.json''],
                warnings = warnings w @
                  [''Request returned: '' @
                   str_of_int
                     (status_code (server (base_url @ ''/'' @ format_arg year @ ''.json'')))] \<rparr>)"
  using assms
  by (simp add: fetch_season_def requests_get_def parse_json_response_def warn_def parse_ergast_def
      Let_def)

theorem fetch_season_non_200_raises_witness:
  "fetch_season example_lib example_server (ArgInt 1949) quiet
     = (Inl TypeError,
        \<lparr> requests = [''https://ergast.com/api/f1/1949.json''],
          warnings = [''Request returned: 404''] \<rparr>)"
proof -
  have "status_code (example_server (base_url @ ''/'' @ format_arg (ArgInt 1949) @ ''.json''))
          \<noteq> 200"
    unfolding url_1949 by (simp add: example_server_def)
  with fetch_season_non_200_raises[where server = example_server and year = "ArgInt 1949"
      and L = example_lib and w = quiet]
  show ?thesis
    unfolding url_1949 by (simp add: example_server_def quiet_def str_404)
qed

text \<open>
  Claim C9, as amended. \<^verbatim>\<open>fetch_results\<close> takes the session \<^verbatim>\<open>'Race'\<close> to the
  day \<^verbatim>\<open>'results'\<close> and the key \<^verbatim>\<open>'Results'\<close>, \<^verbatim>\<open>'Qualifying'\<close> to
  \<^verbatim>\<open>'qualifying'\<close> and \<^verbatim>\<open>'QualifyingResults'\<close>, \<^verbatim>\<open>'Sprint'\<close> and
  \<^verbatim>\<open>'Sprint Qualifying'\<close> to \<^verbatim>\<open>'sprint'\<close> and \<^verbatim>\<open>'SprintResults'\<close>: it
  fetches that day and takes that key of the first race. Any other session raises
  Python's \<^verbatim>\<open>UnboundLocalError\<close>, before anything is requested; the module has no
  exception of its own for a session it does not know.
\<close>

theorem fetch_results_by_session:
  "fetch_results L server year gp ''Race'' w
     = (let (fetched, w1) = fetch_day L server year gp ''results'' w
        in (bind_err fetched (\<lambda>data. first_race_entry data ''Results''), w1))
   \<and> fetch_results L server year gp ''Qualifying'' w
     = (let (fetched, w1) = fetch_day L server year gp ''qualifying'' w
        in (bind_err fetched (\<lambda>data. first_race_entry data ''QualifyingResults''), w1))
   \<and> fetch_results L server year gp ''Sprint'' w
     = (let (fetched, w1) = fetch_day L server year gp ''sprint'' w
        in (bind_err fetched (\<lambda>data. first_race_entry data ''SprintResults''), w1))
   \<and> fetch_results L server year gp ''Sprint Qualifying'' w
     = (let (fetched, w1) = fetch_day L server year gp ''sprint'' w
        in (bind_err fetched (\<lambda>data. first_race_entry data ''SprintResults''), w1))
   \<and> (session \<notin> {''Race'', ''Qualifying'', ''Sprint'', ''Sprint Qualifying''}
      \<longrightarrow> fetch_results L server year gp session w = (Inl UnboundLocalError, w))"
  by (simp add: fetch_results_def session_locals_def)

theorem fetch_results_by_session_witness:
  "fetch_results example_lib example_server (ArgInt 2022) (ArgInt 1) ''Practice 1'' quiet
     = (Inl UnboundLocalError, quiet)
   \<and> fetch_results example_lib example_server (ArgInt 2022) (ArgInt 1) ''Sprint'' quiet
     = (Inl TypeError,
        \<lparr> requests = [''https://ergast.com/api/f1/2022/1/sprint.json''],
          warnings = [''Request returned: 404''] \<rparr>)"
  using fetch_results_by_session[of example_lib example_server "ArgInt 2022" "ArgInt 1" quiet
      "''Practice 1''"] fetch_day_sprint_404
  by (simp add: first_race_entry_def parse_ergast_def)

text \<open>
  The claim as the specification states it fails: for the session \<^verbatim>\<open>'Practice 1'\<close>
  the exception is \<^verbatim>\<open>UnboundLocalError\<close>, which is none of the module's
  \<^verbatim>\<open>ErgastException\<close> classes.
\<close>

theorem unknown_session_raises_UnboundLocalError:
  "fetch_results example_lib example_server (ArgInt 2022) (ArgInt 1) ''Practice 1'' quiet
     = (Inl UnboundLocalError, quiet)
   \<and> \<not> is_ErgastException UnboundLocalError"
  by (simp add: fetch_results_def session_locals_def)

subsection \<open>The example responses, normalised\<close>



lemma seasons_frame:
  "ErgastResultFrame example_float [0] seasons_store
     = (Inr [[(''season'', VStr ''2022''), (''round'', VStr ''1''),
              (''__ErgastResponse'', VItem 0)]],
        seasons_store @ [VDict [(''season'', VStr ''2022''), (''round'', VStr ''1''),
              (''__ErgastResponse'', VItem 0)]])"
  by code_simp




lemma hidden_key_frame:
  "fst (ErgastResultFrame example_float [0] hidden_key_store)
     = Inr [[(''__ErgastResponse'', VItem 0), (''a'', VInt 1)]]"
  by code_simp



lemma seasons_ok:
  "distinct [0::nat]"
  "\<forall>a\<in>set [0]. a < length seasons_store \<and> (\<exists>d. seasons_store ! a = VDict d)"
  by (simp_all add: seasons_store_def)

subsection \<open>The normaliser\<close>

lemma frame_row_nth:
  assumes "distinct response"
    and "\<forall>a\<in>set response. a < length st \<and> (\<exists>d. st ! a = VDict d)"
    and "fst (ErgastResultFrame F response st) = Inr rows"
    and "i < length response"
  shows "normalized_row F (items_of (st ! (response ! i))) (response ! i) = Inr (rows ! i)"
proof -
  from frame_rows[OF assms(1,2), of F] assms(3)
  have "normalized_rows F (map (\<lambda>a. (items_of (st ! a), a)) response) = Inr rows" by simp
  then show ?thesis using assms(4) by (simp add: normalized_rows_Inr)
qed

lemma frame_store_unchanged:
  "take (length st) (snd (ErgastResultFrame F response st)) = st"
  unfolding frame_store by (rule prepare_response_frame)

lemma frame_store_nth:
  assumes "a < length st"
  shows "snd (ErgastResultFrame F response st) ! a = st ! a"
proof -
  have "take (length st) (snd (ErgastResultFrame F response st)) ! a = st ! a"
    by (simp only: frame_store_unchanged)
  with assms show ?thesis by simp
qed














text \<open>
  Claim C5, as amended. In a response of records that have none of \<^verbatim>\<open>Driver\<close>,
  \<^verbatim>\<open>Constructors\<close> and \<^verbatim>\<open>Location\<close> the normaliser returns a table. Whenever
  it returns a table, the row of such a record is the record's top-level fields with the
  hidden column \<^verbatim>\<open>__ErgastResponse\<close> set to the back-reference: every column of
  another name has the value the record has, and a field that the record itself has under
  the name \<^verbatim>\<open>__ErgastResponse\<close> is replaced. For every table,
  \<^verbatim>\<open>get_ergast_response\<close> returns the addresses of the records of the response, in
  order, which are the original objects and not their copies, and each of these objects
  still holds what it held before. (A table without rows has no columns, and the accessor
  returns \<^verbatim>\<open>None\<close>.)
\<close>

theorem pass_through_and_back_reference:
  assumes "distinct response"
    and "\<forall>a\<in>set response. a < length st \<and> (\<exists>d. st ! a = VDict d)"
  shows "((\<forall>a\<in>set response.
             map_of (items_of (st ! a)) ''Driver'' = None
             \<and> map_of (items_of (st ! a)) ''Constructors'' = None
             \<and> map_of (items_of (st ! a)) ''Location'' = None)
          \<longrightarrow> (\<exists>rows. fst (ErgastResultFrame F response st) = Inr rows))
       \<and> (\<forall>rows. fst (ErgastResultFrame F response st) = Inr rows \<longrightarrow>
            (\<forall>i<length response.
               map_of (items_of (st ! (response ! i))) ''Driver'' = None
               \<and> map_of (items_of (st ! (response ! i))) ''Constructors'' = None
               \<and> map_of (items_of (st ! (response ! i))) ''Location'' = None
               \<longrightarrow> rows ! i = AList.update ''__ErgastResponse'' (VItem (response ! i))
                               (items_of (st ! (response ! i)))
                 \<and> map_of (rows ! i) ''__ErgastResponse'' = Some (VItem (response ! i))
                 \<and> (\<forall>k. k \<noteq> ''__ErgastResponse''
                        \<longrightarrow> map_of (rows ! i) k = map_of (items_of (st ! (response ! i))) k))
            \<and> get_ergast_response rows = Inr (if response = [] then None else Some response)
            \<and> (\<forall>a\<in>set response. snd (ErgastResultFrame F response st) ! a = st ! a))"
proof (intro conjI allI impI ballI)
  let ?rs = "map (\<lambda>a. (items_of (st ! a), a)) response"
  have eq: "fst (ErgastResultFrame F response st) = normalized_rows F ?rs"
    by (rule frame_rows[OF assms])
  {
    assume plain: "\<forall>a\<in>set response.
             map_of (items_of (st ! a)) ''Driver'' = None
             \<and> map_of (items_of (st ! a)) ''Constructors'' = None
             \<and> map_of (items_of (st ! a)) ''Location'' = None"
    have "\<not> (\<exists>e. normalized_rows F ?rs = Inl e)"
      unfolding normalized_rows_Inl
    proof
      assume "\<exists>i<length ?rs. \<exists>e. normalized_row F (fst (?rs ! i)) (snd (?rs ! i)) = Inl e"
      then obtain i e where i: "i < length response"
        and e: "normalized_row F (items_of (st ! (response ! i))) (response ! i) = Inl e"
        by auto
      from i plain have "map_of (items_of (st ! (response ! i))) ''Driver'' = None"
        "map_of (items_of (st ! (response ! i))) ''Constructors'' = None"
        "map_of (items_of (st ! (response ! i))) ''Location'' = None"
        by simp_all
      from normalized_row_pass_through[OF this, of F "response ! i"] e show False by simp
    qed
    then show "\<exists>rows. fst (ErgastResultFrame F response st) = Inr rows"
      unfolding eq by (cases "normalized_rows F ?rs") auto
  }
  fix rows
  assume rows: "fst (ErgastResultFrame F response st) = Inr rows"
  {
    fix i
    assume i: "i < length response"
      and plain: "map_of (items_of (st ! (response ! i))) ''Driver'' = None
               \<and> map_of (items_of (st ! (response ! i))) ''Constructors'' = None
               \<and> map_of (items_of (st ! (response ! i))) ''Location'' = None"
    have "normalized_row F (items_of (st ! (response ! i))) (response ! i) = Inr (rows ! i)"
      by (rule frame_row_nth[OF assms rows i])
    moreover from plain have "normalized_row F (items_of (st ! (response ! i))) (response ! i)
        = Inr (AList.update ''__ErgastResponse'' (VItem (response ! i))
                 (items_of (st ! (response ! i))))"
      by (intro normalized_row_pass_through) simp_all
    ultimately show r: "rows ! i = AList.update ''__ErgastResponse'' (VItem (response ! i))
                               (items_of (st ! (response ! i)))"
      by simp
    show "map_of (rows ! i) ''__ErgastResponse'' = Some (VItem (response ! i))"
      unfolding r by (simp add: update_conv')
    fix k :: string
    assume "k \<noteq> ''__ErgastResponse''"
    then show "map_of (rows ! i) k = map_of (items_of (st ! (response ! i))) k"
      unfolding r by (rule map_of_update_hidden)
  }
  from rows eq have "normalized_rows F ?rs = Inr rows" by simp
  from get_ergast_response_rows[OF this]
  show "get_ergast_response rows = Inr (if response = [] then None else Some response)"
    by (simp add: comp_def)
  fix a
  assume "a \<in> set response"
  with assms(2) have "a < length st" by simp
  then show "snd (ErgastResultFrame F response st) ! a = st ! a"
    by (rule frame_store_nth)
qed

theorem pass_through_and_back_reference_witness:
  "fst (ErgastResultFrame example_float [0] seasons_store)
     = Inr [[(''season'', VStr ''2022''), (''round'', VStr ''1''),
             (''__ErgastResponse'', VItem 0)]]
   \<and> get_ergast_response
       [[(''season'', VStr ''2022''), (''round'', VStr ''1''),
         (''__ErgastResponse'', VItem 0 :: real pyval)]] = Inr (Some [0])
   \<and> snd (ErgastResultFrame example_float [0] seasons_store) ! 0
     = VDict [(''season'', VStr ''2022''), (''round'', VStr ''1'')]"
proof -
  let ?rows = "[[(''season'', VStr ''2022''), (''round'', VStr ''1''),
             (''__ErgastResponse'', VItem 0)]] :: real pydict list"
  have f: "fst (ErgastResultFrame example_float [0] seasons_store) = Inr ?rows"
    unfolding seasons_frame by (rule fst_conv)
  from pass_through_and_back_reference[OF seasons_ok, of example_float] f
  have "get_ergast_response ?rows = Inr (if [0::nat] = [] then None else Some [0])"
    and "\<forall>a\<in>set [0::nat]. snd (ErgastResultFrame example_float [0] seasons_store) ! a
            = seasons_store ! a"
    by blast+
  then show ?thesis using f by (simp add: seasons_store_def)
qed


text \<open>
  The claim as the specification states it, the row holding exactly the record's fields
  unchanged, fails for a record that has a field of its own under the name
  \<^verbatim>\<open>__ErgastResponse\<close>: the record has none of the three sub-structures, and its
  field is overwritten by the back-reference.
\<close>

theorem own_hidden_field_is_overwritten:
  "fst (ErgastResultFrame example_float [0] hidden_key_store)
     = Inr [[(''__ErgastResponse'', VItem 0), (''a'', VInt 1)]]
   \<and> map_of (items_of (hidden_key_store ! 0)) ''Driver'' = None
   \<and> map_of (items_of (hidden_key_store ! 0)) ''Constructors'' = None
   \<and> map_of (items_of (hidden_key_store ! 0)) ''Location'' = None
   \<and> map_of (items_of (hidden_key_store ! 0)) ''__ErgastResponse'' = Some (VStr ''mine'')
   \<and> map_of [(''__ErgastResponse'', VItem 0), (''a'', VInt 1 :: real pyval)] ''__ErgastResponse''
       = Some (VItem 0)
   \<and> map_of [(''__ErgastResponse'', VItem 0), (''a'', VInt 1 :: real pyval)] ''__ErgastResponse''
       \<noteq> map_of (items_of (hidden_key_store ! 0)) ''__ErgastResponse''"
  by (simp add: hidden_key_frame) (simp add: hidden_key_store_def)

text \<open>
  Claim C10. The normaliser never changes its input: whatever the response and the
  store, and whether \<^verbatim>\<open>_prepare_response\<close> returns or raises, every object that
  existed before the call holds afterwards what it held before. The copies and the rows
  are new objects behind them. The same holds for the constructor of the frame.
\<close>

theorem prepare_response_input_unchanged:
  "take (length st) (snd (prepare_response F response st)) = st
   \<and> take (length st) (snd (ErgastResultFrame F response st)) = st"
  by (simp add: prepare_response_frame frame_store_unchanged)

theorem prepare_response_input_unchanged_witness:
  "take 2 (snd (prepare_response example_float [0, 1] standings_store)) = standings_store
   \<and> take 1 (snd (ErgastResultFrame example_float [0] null_lat_store)) = null_lat_store"
proof -
  have l2: "length standings_store = 2" and l1: "length null_lat_store = 1"
    by (simp_all add: standings_store_def null_lat_store_def)
  from prepare_response_input_unchanged[of standings_store example_float "[0, 1]"]
  have a: "take 2 (snd (prepare_response example_float [0, 1] standings_store)) = standings_store"
    unfolding l2 by (rule conjunct1)
  from prepare_response_input_unchanged[of null_lat_store example_float "[0]"]
  have b: "take 1 (snd (ErgastResultFrame example_float [0] null_lat_store)) = null_lat_store"
    unfolding l1 by (rule conjunct2)
  from a b show ?thesis by (rule conjI)
qed

end
